theory Spec2Isabelle
  imports Complex_Main "HOL-Library.Word" "HOL-Library.Stream"
begin

section \<open>Data model\<close>

text \<open>
  The simulation exists in two source files with the same classes: \<^verbatim>\<open>main.cpp\<close>, whose
  \<^verbatim>\<open>Node::receive\<close> enqueues every packet, and a second file whose \<^verbatim>\<open>Node::receive\<close> first
  injects loss and corruption. \<^verbatim>\<open>Node::send\<close>, \<^verbatim>\<open>Node::processPackets\<close> and \<^verbatim>\<open>Node::stop\<close>
  are the same text in both. Below, \<open>receive_with\<close> is the receive of the second file and
  \<open>receive_main_with\<close> the receive of \<^verbatim>\<open>main.cpp\<close>.

  \<^verbatim>\<open>enum class PacketType { DATA, ACK }\<close> and \<^verbatim>\<open>struct Packet\<close>; \<^verbatim>\<open>int\<close> is a 32-bit word
  (the sequence number is only ever copied and printed).
\<close>

datatype PacketType = DATA | ACK

record Packet =
  data :: string
  sequenceNumber :: "32 word"
  type :: PacketType

text \<open>
  The private fields of \<^verbatim>\<open>class Node\<close>. The member \<^verbatim>\<open>std::mt19937 &gen\<close> is a reference, so a
  node holds the address of a generator and several nodes may share one (as the two nodes
  of \<^verbatim>\<open>main\<close> do). Nodes are passed by reference as well: a node is named by its address in
  the store of the \<open>World\<close>.
\<close>

record Node =
  name :: string
  buffer :: "Packet list"
  gen :: nat
  running :: bool

text \<open>
  A generator is the stream of the values its future distribution calls return: each call
  \<^verbatim>\<open>dist(gen)\<close> takes the head and leaves the tail. For the two
  \<^verbatim>\<open>uniform_real_distribution<>(0.0, 1.0)\<close> calls the head is the sample in \<open>[0, 1)\<close>; the sleep
  of \<^verbatim>\<open>send\<close> consumes one value and is otherwise not part of the model. Samples are reals:
  the doubles nearest to 0.1 and 0.05 lie above them, so a double is below the threshold of
  the code exactly when it is below 0.1 or 0.05.

  \<^verbatim>\<open>send\<close> and \<^verbatim>\<open>receive\<close> call each other within one thread, and the functions below give
  what that thread does to the world: the buffers only grow here. The thread that empties a
  buffer is \<^verbatim>\<open>processPackets\<close>, modelled further down with the other threads as its
  environment.
\<close>

record World =
  nodes :: "nat \<Rightarrow> Node"
  gens :: "nat \<Rightarrow> real stream"

text \<open>
  Every line written to \<^verbatim>\<open>cout\<close> under \<^verbatim>\<open>coutMutex\<close> is one event, with the values the line prints:
  \<^item> \<open>Sending name kind data seq receiver attempt\<close>: "is sending ... (Attempt n)";
  \<^item> \<open>FailedAttempt name receiver what\<close>: "failed to send packet to ...: what";
  \<^item> \<open>FailedAfter name seq receiver n\<close>: "failed to send packet ... after n attempts.";
  \<^item> \<open>Dropped name data seq\<close>: "dropped packet";
  \<^item> \<open>ReceivedCorrupted name data seq\<close>: "received corrupted packet";
  \<^item> \<open>Received name kind data seq\<close>: "received DATA/ACK packet";
  \<^item> \<open>Processing name data seq\<close>: "is processing packet";
  \<^item> \<open>ProcessingError name what\<close>: "encountered an error while processing packets";
  \<^item> \<open>Stopping name\<close>: "is stopping packet processing.".
\<close>

datatype Event =
    Sending string PacketType string "32 word" string nat
  | FailedAttempt string string string
  | FailedAfter string "32 word" string nat
  | Dropped string string "32 word"
  | ReceivedCorrupted string string "32 word"
  | Received string PacketType string "32 word"
  | Processing string string "32 word"
  | ProcessingError string string
  | Stopping string

text \<open>
  A call either returns or leaves by a \<^verbatim>\<open>std::exception\<close>, kept as its \<^verbatim>\<open>what()\<close>. Whatever
  the call printed and changed before it threw stays printed and changed, so the result
  carries the events and the world in both cases.
\<close>

datatype outcome = Returned | Raised string

type_synonym result = "outcome \<times> Event list \<times> World"

definition MAX_RETRIES :: nat where
  "MAX_RETRIES = 3"

definition getName :: "World \<Rightarrow> nat \<Rightarrow> string" where
  "getName w n = name (nodes w n)"

text \<open>\<^verbatim>\<open>dist(gen)\<close> called by node \<open>this\<close>: the value, and the world with the generator advanced.\<close>

definition sample :: "nat \<Rightarrow> World \<Rightarrow> real \<times> World" where
  "sample this w =
     (let g = gen (nodes w this)
      in (shd (gens w g), w\<lparr>gens := (gens w)(g := stl (gens w g))\<rparr>))"

text \<open>\<^verbatim>\<open>buffer.push(p)\<close> on node \<open>this\<close>.\<close>

definition push :: "nat \<Rightarrow> Packet \<Rightarrow> World \<Rightarrow> World" where
  "push this p w =
     w\<lparr>nodes := (nodes w)(this := (nodes w this)\<lparr>buffer := buffer (nodes w this) @ [p]\<rparr>)\<rparr>"

section \<open>\<^verbatim>\<open>Node::send\<close>\<close>

text \<open>
  The retry loop, with the loop variable \<^verbatim>\<open>retryCount\<close> as an argument (a call of
  \<^verbatim>\<open>send\<close> starts it at 0). The callee \<^verbatim>\<open>receiver.receive(packet, *this)\<close> is the parameter
  \<open>recv\<close>, applied to the packet, the receiver and the sender: the program passes its own
  \<open>receive\<close> (below), a test may pass a receive that is forced to fail.
\<close>

function send_with ::
  "(Packet \<Rightarrow> nat \<Rightarrow> nat \<Rightarrow> World \<Rightarrow> result) \<Rightarrow> nat \<Rightarrow> Packet \<Rightarrow> nat \<Rightarrow> nat \<Rightarrow> World \<Rightarrow> result"
where
  "send_with recv retryCount packet this receiver w =
     (if retryCount < MAX_RETRIES then
        (let ev = Sending (getName w this) (type packet) (data packet) (sequenceNumber packet)
                    (getName w receiver) (retryCount + 1);
             (delay, w1) = sample this w
         in case recv packet receiver this w1 of
              (Returned, evs, w2) \<Rightarrow> (Returned, ev # evs, w2)
            | (Raised e, evs, w2) \<Rightarrow>
                (let ev' = FailedAttempt (getName w2 this) (getName w2 receiver) e;
                     (r, evs', w3) = send_with recv (retryCount + 1) packet this receiver w2
                 in (r, ev # evs @ ev' # evs', w3)))
      else
        (Raised ''Failed to send packet after maximum retries'',
         [FailedAfter (getName w this) (sequenceNumber packet) (getName w receiver) MAX_RETRIES],
         w))"
  by pat_completeness auto
termination
  by (relation "measure (\<lambda>(recv, retryCount, packet, this, receiver, w). MAX_RETRIES - retryCount)") auto

declare send_with.simps [simp del]

section \<open>\<^verbatim>\<open>Node::receive\<close>\<close>

text \<open>
  The receive with loss and corruption injection. The nested call
  \<^verbatim>\<open>send(ackPacket, sender)\<close> is the parameter \<open>snd_op\<close>, applied to the ACK, this node and the
  sender. The call stands outside any \<^verbatim>\<open>try\<close> block, so its outcome is the outcome of
  \<^verbatim>\<open>receive\<close>.
\<close>

definition receive_with ::
  "(Packet \<Rightarrow> nat \<Rightarrow> nat \<Rightarrow> World \<Rightarrow> result) \<Rightarrow> Packet \<Rightarrow> nat \<Rightarrow> nat \<Rightarrow> World \<Rightarrow> result"
where
  "receive_with snd_op packet this sender w =
     (let (loss, w1) = sample this w
      in if loss < 0.1 then
           (Returned, [Dropped (getName w1 this) (data packet) (sequenceNumber packet)], w1)
         else
           (let (corruption, w2) = sample this w1;
                receivedPacket = (if corruption < 0.05 then packet\<lparr>data := ''CORRUPTED''\<rparr> else packet);
                evc = (if corruption < 0.05
                       then [ReceivedCorrupted (getName w2 this) (data receivedPacket)
                               (sequenceNumber receivedPacket)]
                       else []);
                w3 = push this receivedPacket w2;
                evr = Received (getName w3 this) (type receivedPacket) (data receivedPacket)
                        (sequenceNumber receivedPacket)
            in if type receivedPacket = DATA then
                 (let ackPacket = \<lparr>data = ''ACK'', sequenceNumber = sequenceNumber receivedPacket,
                                    type = ACK\<rparr>;
                      (r, evs, w4) = snd_op ackPacket this sender w3
                  in (r, evc @ evr # evs, w4))
               else (Returned, evc @ [evr], w3)))"

text \<open>The receive of \<^verbatim>\<open>main.cpp\<close>: no sampling, every packet is enqueued.\<close>

definition receive_main_with ::
  "(Packet \<Rightarrow> nat \<Rightarrow> nat \<Rightarrow> World \<Rightarrow> result) \<Rightarrow> Packet \<Rightarrow> nat \<Rightarrow> nat \<Rightarrow> World \<Rightarrow> result"
where
  "receive_main_with snd_op packet this sender w =
     (let w1 = push this packet w;
          evr = Received (getName w1 this) (type packet) (data packet) (sequenceNumber packet)
      in if type packet = DATA then
           (let ackPacket = \<lparr>data = ''ACK'', sequenceNumber = sequenceNumber packet, type = ACK\<rparr>;
                (r, evs, w2) = snd_op ackPacket this sender w1
            in (r, evr # evs, w2))
         else (Returned, [evr], w1))"

section \<open>The program: \<^verbatim>\<open>send\<close> and \<^verbatim>\<open>receive\<close> call each other\<close>

text \<open>
  \<open>send_with\<close> applies \<open>recv\<close> to its own packet only, and the two receives apply \<open>snd_op\<close>
  only to the ACK of a DATA packet. With these facts the mutual recursion of the source
  terminates: a DATA packet is answered by an ACK, and an ACK by nothing.
\<close>

lemma send_with_cong [fundef_cong]:
  assumes "\<And>v. recv packet receiver this v = recv' packet receiver this v"
  shows "send_with recv retryCount packet this receiver w
       = send_with recv' retryCount packet this receiver w"
proof (induction "MAX_RETRIES - retryCount" arbitrary: retryCount w)
  case 0
  then show ?case
    by (simp add: send_with.simps [of _ retryCount])
next
  case (Suc k)
  have IH: "send_with recv (Suc retryCount) packet this receiver v
          = send_with recv' (Suc retryCount) packet this receiver v" for v
    using Suc.hyps(2) by (intro Suc.hyps(1)) simp
  show ?case
    by (simp add: send_with.simps [of _ retryCount] assms IH Let_def
          split: prod.splits outcome.splits)
qed

lemma receive_with_cong [fundef_cong]:
  assumes "\<And>v. type packet = DATA \<Longrightarrow>
      snd_op \<lparr>data = ''ACK'', sequenceNumber = sequenceNumber packet, type = ACK\<rparr> this sender v
    = snd_op' \<lparr>data = ''ACK'', sequenceNumber = sequenceNumber packet, type = ACK\<rparr> this sender v"
  shows "receive_with snd_op packet this sender w = receive_with snd_op' packet this sender w"
  using assms by (simp add: receive_with_def Let_def split: prod.splits)

lemma receive_main_with_cong [fundef_cong]:
  assumes "\<And>v. type packet = DATA \<Longrightarrow>
      snd_op \<lparr>data = ''ACK'', sequenceNumber = sequenceNumber packet, type = ACK\<rparr> this sender v
    = snd_op' \<lparr>data = ''ACK'', sequenceNumber = sequenceNumber packet, type = ACK\<rparr> this sender v"
  shows "receive_main_with snd_op packet this sender w
       = receive_main_with snd_op' packet this sender w"
  using assms by (simp add: receive_main_with_def Let_def)

function send :: "Packet \<Rightarrow> nat \<Rightarrow> nat \<Rightarrow> World \<Rightarrow> result"
  and receive :: "Packet \<Rightarrow> nat \<Rightarrow> nat \<Rightarrow> World \<Rightarrow> result"
where
  "send packet this receiver w = send_with receive 0 packet this receiver w"
| "receive packet this sender w = receive_with send packet this sender w"
  by pat_completeness auto
termination
  apply (relation "measure (\<lambda>x. case x of
            Inl (packet, this, receiver, w) \<Rightarrow> (if type packet = DATA then 3 else 1)
          | Inr (packet, this, sender, w) \<Rightarrow> (if type packet = DATA then 2 else 0))")
  apply auto
  done


function send_main :: "Packet \<Rightarrow> nat \<Rightarrow> nat \<Rightarrow> World \<Rightarrow> result"
  and receive_main :: "Packet \<Rightarrow> nat \<Rightarrow> nat \<Rightarrow> World \<Rightarrow> result"
where
  "send_main packet this receiver w = send_with receive_main 0 packet this receiver w"
| "receive_main packet this sender w = receive_main_with send_main packet this sender w"
  by pat_completeness auto
termination
  apply (relation "measure (\<lambda>x. case x of
            Inl (packet, this, receiver, w) \<Rightarrow> (if type packet = DATA then 3 else 1)
          | Inr (packet, this, sender, w) \<Rightarrow> (if type packet = DATA then 2 else 0))")
  apply auto
  done

declare send.simps [simp del] receive.simps [simp del]
declare send_main.simps [simp del] receive_main.simps [simp del]

section \<open>\<^verbatim>\<open>Node::stop\<close>\<close>

text \<open>
  \<^verbatim>\<open>running = false\<close> under the buffer lock, then \<^verbatim>\<open>notify_all\<close>. The function has no
  \<^verbatim>\<open>throw\<close>; the wake-up is the enabledness of the waiting step of \<open>step\<close> below.
\<close>

definition stop :: "Node \<Rightarrow> outcome \<times> Node" where
  "stop n = (Returned, n\<lparr>running := False\<rparr>)"

section \<open>\<^verbatim>\<open>Node::processPackets\<close>\<close>

text \<open>
  The loop runs in a thread of its own while other threads enqueue packets and call
  \<^verbatim>\<open>stop\<close>. It is a transition system on the control points at which the thread does not
  hold \<^verbatim>\<open>bufferMutex\<close>; each step is what the thread does up to the next such point:
  \<^item> \<open>LoopHead\<close>: the test of \<^verbatim>\<open>while (running)\<close>;
  \<^item> \<open>Wait\<close>: \<^verbatim>\<open>bufferCV.wait\<close> (no step while the buffer is empty and the node runs), then
    \<^verbatim>\<open>if (!running) break;\<close>, then the first test of the inner loop with \<^verbatim>\<open>front\<close>, \<^verbatim>\<open>pop\<close> and
    \<^verbatim>\<open>unlock\<close>;
  \<^item> \<open>Process p\<close>: the line "is processing packet" for the packet just taken;
  \<^item> \<open>Relock\<close>: \<^verbatim>\<open>lock.lock()\<close>, the test of the inner loop and either the next \<^verbatim>\<open>pop\<close> or the
    end of the \<^verbatim>\<open>try\<close> block;
  \<^item> \<open>Handler e\<close>: the \<^verbatim>\<open>catch\<close> block for an exception whose \<^verbatim>\<open>what()\<close> is \<open>e\<close>;
  \<^item> \<open>Exit\<close>: the line "is stopping packet processing." after the loop;
  \<^item> \<open>STOPPED\<close>: the function has returned.

  The \<^verbatim>\<open>try\<close> block has no \<^verbatim>\<open>throw\<close> of its own, but the calls in it can raise: the
  constructor of the lock, \<^verbatim>\<open>wait\<close>, the copy \<^verbatim>\<open>Packet packet = buffer.front()\<close>, \<^verbatim>\<open>unlock\<close>, the
  output and \<^verbatim>\<open>lock.lock()\<close>. A step is therefore taken with \<open>raised = None\<close>, when every
  call in it returns, or with \<open>raised = Some e\<close>, when one of its calls inside the \<^verbatim>\<open>try\<close> block
  throws an exception whose \<^verbatim>\<open>what()\<close> is \<open>e\<close>:
  \<^item> at \<open>Wait\<close> the calls that can raise (lock, wait, copy) all come before \<^verbatim>\<open>pop\<close>, so the
    queue is as it was and the packet at its head is still there;
  \<^item> at \<open>Process p\<close> (unlock, output) the packet \<open>p\<close> has been popped and its line is not
    printed;
  \<^item> at \<open>Relock\<close> (lock, copy of the next packet) the queue is as it was;
  \<^item> the loop test, the handler and the last line stand outside the \<^verbatim>\<open>try\<close> block: no
    such step there.
  In every case the lock is released on the way to the handler.
\<close>

datatype pc = LoopHead | Wait | Process Packet | Relock | Handler string | Exit | STOPPED

record Proc =
  pc :: pc
  node :: Node
  out :: "Event list"

definition step :: "string option \<Rightarrow> Proc \<Rightarrow> Proc option" where
  "step raised s =
     (case pc s of
        LoopHead \<Rightarrow>
          (case raised of
             None \<Rightarrow> Some (s\<lparr>pc := (if running (node s) then Wait else Exit)\<rparr>)
           | Some e \<Rightarrow> None)
      | Wait \<Rightarrow>
          (case raised of
             Some e \<Rightarrow> Some (s\<lparr>pc := Handler e\<rparr>)
           | None \<Rightarrow>
               (if \<not> (buffer (node s) \<noteq> [] \<or> \<not> running (node s)) then None
                else if \<not> running (node s) then Some (s\<lparr>pc := Exit\<rparr>)
                else (case buffer (node s) of
                        [] \<Rightarrow> Some (s\<lparr>pc := LoopHead\<rparr>)
                      | packet # rest \<Rightarrow>
                          Some (s\<lparr>pc := Process packet,
                                  node := (node s)\<lparr>buffer := rest\<rparr>\<rparr>))))
      | Process packet \<Rightarrow>
          (case raised of
             None \<Rightarrow>
               Some (s\<lparr>pc := Relock,
                       out := out s @ [Processing (name (node s)) (data packet)
                                         (sequenceNumber packet)]\<rparr>)
           | Some e \<Rightarrow> Some (s\<lparr>pc := Handler e\<rparr>))
      | Relock \<Rightarrow>
          (case raised of
             Some e \<Rightarrow> Some (s\<lparr>pc := Handler e\<rparr>)
           | None \<Rightarrow>
               (case buffer (node s) of
                  [] \<Rightarrow> Some (s\<lparr>pc := LoopHead\<rparr>)
                | packet # rest \<Rightarrow>
                    Some (s\<lparr>pc := Process packet, node := (node s)\<lparr>buffer := rest\<rparr>\<rparr>)))
      | Handler e \<Rightarrow>
          (case raised of
             None \<Rightarrow>
               Some (s\<lparr>pc := LoopHead,
                       out := out s @ [ProcessingError (name (node s)) e],
                       node := (if e = ''Fatal error'' then (node s)\<lparr>running := False\<rparr>
                                else node s)\<rparr>)
           | Some e' \<Rightarrow> None)
      | Exit \<Rightarrow>
          (case raised of
             None \<Rightarrow> Some (s\<lparr>pc := STOPPED, out := out s @ [Stopping (name (node s))]\<rparr>)
           | Some e \<Rightarrow> None)
      | STOPPED \<Rightarrow> None)"

text \<open>
  \<open>Thread\<close> is a step of the loop in which nothing is raised and \<open>Raise e\<close> a step in which
  \<open>e\<close> is; \<open>CallStop\<close> is \<^verbatim>\<open>stop()\<close> called by another thread; \<open>Enqueue p\<close> is the
  \<^verbatim>\<open>buffer.push\<close> of a \<^verbatim>\<open>receive\<close> running in another thread. \<open>exec\<close> runs a schedule; it is
  \<open>None\<close> when the schedule asks for a step the thread cannot take.
\<close>

datatype action = Thread | Raise string | CallStop | Enqueue Packet

fun exec :: "action list \<Rightarrow> Proc \<Rightarrow> Proc option" where
  "exec [] s = Some s"
| "exec (Thread # as) s =
     (case step None s of None \<Rightarrow> None | Some s' \<Rightarrow> exec as s')"
| "exec (Raise e # as) s =
     (case step (Some e) s of None \<Rightarrow> None | Some s' \<Rightarrow> exec as s')"
| "exec (CallStop # as) s = exec as (s\<lparr>node := snd (stop (node s))\<rparr>)"
| "exec (Enqueue packet # as) s =
     exec as (s\<lparr>node := (node s)\<lparr>buffer := buffer (node s) @ [packet]\<rparr>\<rparr>)"

text \<open>
  The constructor leaves the buffer empty and \<^verbatim>\<open>running\<close> true; a call of
  \<^verbatim>\<open>processPackets\<close> starts at the loop head with nothing printed.
\<close>

definition newNode :: "string \<Rightarrow> nat \<Rightarrow> Node" where
  "newNode nodeName genRef = \<lparr>name = nodeName, buffer = [], gen = genRef, running = True\<rparr>"

definition processPackets :: "Node \<Rightarrow> Proc" where
  "processPackets n = \<lparr>pc = LoopHead, node = n, out = []\<rparr>"

section \<open>The scenario of \<^verbatim>\<open>main\<close>\<close>

text \<open>
  Node A at address 0 and node B at every other address, all on the generator at
  address 0, which yields the stream \<open>g\<close>; the two packets of \<^verbatim>\<open>main\<close>; and a receive that
  is forced to fail, as in a test of the retry loop.
\<close>

definition demo :: "real stream \<Rightarrow> World" where
  "demo g = \<lparr>nodes = (\<lambda>i. if i = 0 then newNode ''Node A'' 0 else newNode ''Node B'' 0),
             gens = (\<lambda>_. g)\<rparr>"

definition packet1 :: Packet where
  "packet1 = \<lparr>data = ''Test'', sequenceNumber = 1, type = DATA\<rparr>"

definition packet2 :: Packet where
  "packet2 = \<lparr>data = ''Packet'', sequenceNumber = 2, type = DATA\<rparr>"

definition unreachable :: "Packet \<Rightarrow> nat \<Rightarrow> nat \<Rightarrow> World \<Rightarrow> result" where
  "unreachable packet this sender w = (Raised ''Connection refused'', [], w)"

text \<open>The "is sending" lines of a trace.\<close>

fun is_Sending :: "Event \<Rightarrow> bool" where
  "is_Sending (Sending n k d q r a) = True"
| "is_Sending _ = False"


section \<open>Observations\<close>

text \<open>
  \<open>no_injection packet this sender w\<close>: every loss and corruption sample that
  \<open>receive packet this sender w\<close> draws, and that the receive of the ACK it sends draws,
  misses its threshold. The samples are drawn in the order of the code: loss and corruption
  by \<open>this\<close>, then for a DATA packet the delay of the nested \<open>send\<close> by \<open>this\<close> and loss and
  corruption by \<open>sender\<close>.
\<close>

definition no_injection :: "Packet \<Rightarrow> nat \<Rightarrow> nat \<Rightarrow> World \<Rightarrow> bool" where
  "no_injection packet this sender w =
     (let (loss, w1) = sample this w;
          (corruption, w2) = sample this w1
      in \<not> loss < 0.1 \<and> \<not> corruption < 0.05 \<and>
         (type packet = DATA \<longrightarrow>
            (let (delay, w3) = sample this (push this packet w2);
                 (loss', w4) = sample sender w3;
                 (corruption', w5) = sample sender w4
             in \<not> loss' < 0.1 \<and> \<not> corruption' < 0.05)))"

text \<open>
  \<open>draws ns w\<close>: the world after the nodes \<open>ns\<close> have each, in this order, drawn one sample
  from their generator.
\<close>

fun draws :: "nat list \<Rightarrow> World \<Rightarrow> World" where
  "draws [] w = w"
| "draws (n # ns) w = draws ns (snd (sample n w))"

text \<open>
  \<open>settled nm s\<close>: the node's name is \<open>nm\<close>; the "is stopping" line is printed exactly when
  the loop has returned, once and as the last line; and past the loop the flag \<^verbatim>\<open>running\<close>
  is false.
\<close>

definition settled :: "string \<Rightarrow> Proc \<Rightarrow> bool" where
  "settled nm s \<longleftrightarrow>
     name (node s) = nm
     \<and> (if pc s = STOPPED
        then \<not> running (node s)
             \<and> (\<exists>evs. out s = evs @ [Stopping nm] \<and> Stopping nm \<notin> set evs)
        else Stopping nm \<notin> set (out s) \<and> (pc s = Exit \<longrightarrow> \<not> running (node s)))"

section \<open>Facts about the state\<close>

lemma nodes_sample [simp]: "nodes (snd (sample this w)) = nodes w"
  by (simp add: sample_def Let_def)

lemma getName_sample [simp]: "getName (snd (sample this w)) n = getName w n"
  by (simp add: getName_def)

lemma nodes_push [simp]:
  "nodes (push this p w) n =
     (if n = this then (nodes w this)\<lparr>buffer := buffer (nodes w this) @ [p]\<rparr> else nodes w n)"
  by (simp add: push_def)

lemma getName_push [simp]: "getName (push this p w) n = getName w n"
  by (simp add: getName_def)

section \<open>Which calls can raise\<close>

text \<open>
  \<open>send\<close> raises only its own error, whatever \<open>receive\<close> does. A \<open>receive\<close> raises only if its
  nested \<open>send\<close> does, and a \<open>send\<close> whose \<open>receive\<close> always returns returns. In the program
  an ACK is answered by nothing, so every call returns.
\<close>

lemma send_with_raises_only_exhausted:
  "fst (send_with recv retryCount packet this receiver w) = Raised e
     \<Longrightarrow> e = ''Failed to send packet after maximum retries''"
proof (induction "MAX_RETRIES - retryCount" arbitrary: retryCount w)
  case 0
  then show ?case
    by (simp add: send_with.simps [of _ retryCount])
next
  case (Suc k)
  have lt: "retryCount < MAX_RETRIES" using Suc.hyps(2) by simp
  have IH: "fst (send_with recv (Suc retryCount) packet this receiver v) = Raised e
     \<Longrightarrow> e = ''Failed to send packet after maximum retries''" for v
    using Suc.hyps(2) by (intro Suc.hyps(1)) simp_all
  obtain d w1 where s: "sample this w = (d, w1)" by (cases "sample this w")
  obtain r evs w2 where rc: "recv packet receiver this w1 = (r, evs, w2)"
    by (cases "recv packet receiver this w1")
  show ?case
  proof (cases r)
    case Returned
    with Suc.prems lt s rc show ?thesis
      by (simp add: send_with.simps [of _ retryCount])
  next
    case (Raised x)
    obtain r' evs' w3 where nx: "send_with recv (Suc retryCount) packet this receiver w2 = (r', evs', w3)"
      by (cases "send_with recv (Suc retryCount) packet this receiver w2")
    with Suc.prems lt s rc Raised have "r' = Raised e"
      by (simp add: send_with.simps [of _ retryCount])
    with nx IH [of w2] show ?thesis by simp
  qed
qed

lemma receive_with_returns:
  assumes "\<And>v. type packet = DATA \<Longrightarrow>
     fst (snd_op \<lparr>data = ''ACK'', sequenceNumber = sequenceNumber packet, type = ACK\<rparr>
            this sender v) = Returned"
  shows "fst (receive_with snd_op packet this sender w) = Returned"
proof -
  have ack: "r = Returned"
    if "type packet = DATA"
      and "snd_op \<lparr>data = ''ACK'', sequenceNumber = sequenceNumber packet, type = ACK\<rparr>
             this sender v = (r, evs, v')" for v r evs v'
    using assms [of v] that by simp
  show ?thesis
    by (auto simp: receive_with_def Let_def split: prod.splits dest: ack)
qed

lemma receive_main_with_returns:
  assumes "\<And>v. type packet = DATA \<Longrightarrow>
     fst (snd_op \<lparr>data = ''ACK'', sequenceNumber = sequenceNumber packet, type = ACK\<rparr>
            this sender v) = Returned"
  shows "fst (receive_main_with snd_op packet this sender w) = Returned"
proof -
  have ack: "r = Returned"
    if "type packet = DATA"
      and "snd_op \<lparr>data = ''ACK'', sequenceNumber = sequenceNumber packet, type = ACK\<rparr>
             this sender v = (r, evs, v')" for v r evs v'
    using assms [of v] that by simp
  show ?thesis
    by (auto simp: receive_main_with_def Let_def split: prod.splits dest: ack)
qed

lemma send_with_returns:
  assumes "\<And>v. fst (recv packet receiver this v) = Returned"
  shows "fst (send_with recv 0 packet this receiver w) = Returned"
proof -
  obtain d v0 where s0: "sample this w = (d, v0)" by (cases "sample this w")
  obtain r evs w' where r0: "recv packet receiver this v0 = (r, evs, w')"
    by (cases "recv packet receiver this v0")
  from assms [of v0] r0 have "r = Returned" by simp
  with s0 r0 show ?thesis
    by (simp add: send_with.simps [of _ 0] MAX_RETRIES_def)
qed

lemma receive_ACK_returns:
  "type packet = ACK \<Longrightarrow> fst (receive packet this sender w) = Returned"
  unfolding receive.simps by (rule receive_with_returns) simp

lemma send_ACK_returns:
  "type packet = ACK \<Longrightarrow> fst (send packet this receiver w) = Returned"
  unfolding send.simps by (rule send_with_returns) (rule receive_ACK_returns)

lemma receive_returns: "fst (receive packet this sender w) = Returned"
  unfolding receive.simps by (rule receive_with_returns) (rule send_ACK_returns, simp)

lemma send_returns: "fst (send packet this receiver w) = Returned"
  unfolding send.simps by (rule send_with_returns) (rule receive_returns)

lemma receive_main_ACK_returns:
  "type packet = ACK \<Longrightarrow> fst (receive_main packet this sender w) = Returned"
  unfolding receive_main.simps by (rule receive_main_with_returns) simp

lemma send_main_ACK_returns:
  "type packet = ACK \<Longrightarrow> fst (send_main packet this receiver w) = Returned"
  unfolding send_main.simps by (rule send_with_returns) (rule receive_main_ACK_returns)

lemma receive_main_returns: "fst (receive_main packet this sender w) = Returned"
  unfolding receive_main.simps
  by (rule receive_main_with_returns) (rule send_main_ACK_returns, simp)

lemma send_main_returns: "fst (send_main packet this receiver w) = Returned"
  unfolding send_main.simps by (rule send_with_returns) (rule receive_main_returns)

section \<open>What an ACK does\<close>

text \<open>
  The first four unfoldings of the retry loop, for evaluating it on given inputs.
\<close>

lemmas send_with_attempts =
  send_with.simps [of _ 0] send_with.simps [of _ "Suc 0"]
  send_with.simps [of _ "Suc (Suc 0)"] send_with.simps [of _ "Suc (Suc (Suc 0))"]

text \<open>
  Receiving an ACK prints no "is sending" line and touches only the receiver's buffer, which
  it may extend. Sending an ACK therefore takes one attempt.
\<close>

lemma receive_ACK_effect:
  assumes "type packet = ACK"
  shows "\<exists>evs v rest. receive packet this sender w = (Returned, evs, v)
           \<and> filter is_Sending evs = []
           \<and> (\<forall>n. getName v n = getName w n)
           \<and> (\<forall>n. n \<noteq> this \<longrightarrow> nodes v n = nodes w n)
           \<and> buffer (nodes v this) = buffer (nodes w this) @ rest"
  using assms
  by (auto simp: receive.simps receive_with_def Let_def getName_def sample_def push_def
      split: prod.splits)

lemma send_ACK_effect:
  assumes "type packet = ACK"
  shows "\<exists>evs v rest. send packet this receiver w =
             (Returned,
              Sending (getName w this) ACK (data packet) (sequenceNumber packet)
                (getName w receiver) 1 # evs, v)
           \<and> filter is_Sending evs = []
           \<and> (\<forall>n. getName v n = getName w n)
           \<and> (\<forall>n. n \<noteq> receiver \<longrightarrow> nodes v n = nodes w n)
           \<and> buffer (nodes v receiver) = buffer (nodes w receiver) @ rest"
proof -
  obtain d w1 where s: "sample this w = (d, w1)" by (cases "sample this w")
  have w1: "nodes w1 = nodes w" using s nodes_sample [of this w] by simp
  from receive_ACK_effect [OF assms, of receiver this w1]
  obtain evs v rest where r: "receive packet receiver this w1 = (Returned, evs, v)"
    and f: "filter is_Sending evs = []"
    and n: "\<forall>n. getName v n = getName w1 n"
    and o: "\<forall>n. n \<noteq> receiver \<longrightarrow> nodes v n = nodes w1 n"
    and b: "buffer (nodes v receiver) = buffer (nodes w1 receiver) @ rest"
    by blast
  have "send packet this receiver w =
      (Returned, Sending (getName w this) ACK (data packet) (sequenceNumber packet)
                   (getName w receiver) 1 # evs, v)"
    using s r assms by (simp add: send.simps send_with.simps [of _ 0] MAX_RETRIES_def)
  with f n o b w1 show ?thesis by (simp add: getName_def)
qed

lemma receive_main_ACK_effect:
  assumes "type packet = ACK"
  shows "receive_main packet this sender w =
           (Returned, [Received (getName w this) ACK (data packet) (sequenceNumber packet)],
            push this packet w)"
  using assms by (simp add: receive_main.simps receive_main_with_def Let_def)

lemma send_main_ACK_effect:
  assumes "type packet = ACK"
  shows "send_main packet this receiver w =
           (Returned,
            [Sending (getName w this) ACK (data packet) (sequenceNumber packet)
               (getName w receiver) 1,
             Received (getName w receiver) ACK (data packet) (sequenceNumber packet)],
            push receiver packet (snd (sample this w)))"
  using assms
  by (simp add: send_main.simps send_with.simps [of _ 0] MAX_RETRIES_def
      receive_main_ACK_effect case_prod_beta)

lemma corrupted_packet:
  "(packet :: Packet)\<lparr>data := ''CORRUPTED''\<rparr> =
     \<lparr>data = ''CORRUPTED'', sequenceNumber = sequenceNumber packet, type = type packet\<rparr>"
  by (cases packet) simp

section \<open>The retry loop\<close>

text \<open>
  C1. If the receiver's \<open>receive\<close> raises on every call, \<open>send\<close> makes exactly three
  attempts: it calls \<open>receive\<close> three times, each time after one "is sending" line (attempts
  1, 2, 3) and one delay sample, and prints one "failed to send packet to" line after each
  call; then it prints "failed to send packet ... after 3 attempts." and throws the
  runtime error "Failed to send packet after maximum retries". Between its own lines stand
  only the lines \<open>evs1\<close>, \<open>evs2\<close>, \<open>evs3\<close> that the three calls of \<open>receive\<close> printed. Whatever
  \<open>receive\<close> does, this is the only exception \<open>send\<close> leaves by.
\<close>

theorem send_exhausts_after_three_attempts:
  assumes "\<forall>v. \<exists>e evs v'. recv packet receiver this v = (Raised e, evs, v')"
  shows "(\<exists>e1 evs1 w1 e2 evs2 w2 e3 evs3 w3.
            recv packet receiver this (snd (sample this w)) = (Raised e1, evs1, w1)
          \<and> recv packet receiver this (snd (sample this w1)) = (Raised e2, evs2, w2)
          \<and> recv packet receiver this (snd (sample this w2)) = (Raised e3, evs3, w3)
          \<and> send_with recv 0 packet this receiver w =
              (Raised ''Failed to send packet after maximum retries'',
               [Sending (getName w this) (type packet) (data packet) (sequenceNumber packet)
                  (getName w receiver) 1] @ evs1 @
               [FailedAttempt (getName w1 this) (getName w1 receiver) e1,
                Sending (getName w1 this) (type packet) (data packet) (sequenceNumber packet)
                  (getName w1 receiver) 2] @ evs2 @
               [FailedAttempt (getName w2 this) (getName w2 receiver) e2,
                Sending (getName w2 this) (type packet) (data packet) (sequenceNumber packet)
                  (getName w2 receiver) 3] @ evs3 @
               [FailedAttempt (getName w3 this) (getName w3 receiver) e3,
                FailedAfter (getName w3 this) (sequenceNumber packet) (getName w3 receiver) 3],
               w3))
       \<and> (\<forall>recv' n p t r v e. fst (send_with recv' n p t r v) = Raised e
             \<longrightarrow> e = ''Failed to send packet after maximum retries'')"
    (is "?three_attempts \<and> ?only_error")
proof -
  obtain d0 v0 where s0: "sample this w = (d0, v0)" by (cases "sample this w")
  obtain e1 evs1 w1 where r1: "recv packet receiver this v0 = (Raised e1, evs1, w1)"
    using assms by blast
  obtain d1 v1 where s1: "sample this w1 = (d1, v1)" by (cases "sample this w1")
  obtain e2 evs2 w2 where r2: "recv packet receiver this v1 = (Raised e2, evs2, w2)"
    using assms by blast
  obtain d2 v2 where s2: "sample this w2 = (d2, v2)" by (cases "sample this w2")
  obtain e3 evs3 w3 where r3: "recv packet receiver this v2 = (Raised e3, evs3, w3)"
    using assms by blast
  have n2: "Suc (Suc 0) = 2" by simp
  have a3: "send_with recv 3 packet this receiver w3 =
      (Raised ''Failed to send packet after maximum retries'',
       [FailedAfter (getName w3 this) (sequenceNumber packet) (getName w3 receiver) 3], w3)"
    by (simp add: send_with.simps [of _ 3] MAX_RETRIES_def)
  have a2: "send_with recv 2 packet this receiver w2 =
      (Raised ''Failed to send packet after maximum retries'',
       [Sending (getName w2 this) (type packet) (data packet) (sequenceNumber packet)
          (getName w2 receiver) 3] @ evs3 @
       [FailedAttempt (getName w3 this) (getName w3 receiver) e3,
        FailedAfter (getName w3 this) (sequenceNumber packet) (getName w3 receiver) 3], w3)"
    by (simp add: send_with.simps [of _ 2] MAX_RETRIES_def s2 r3 a3)
  have a1: "send_with recv (Suc 0) packet this receiver w1 =
      (Raised ''Failed to send packet after maximum retries'',
       [Sending (getName w1 this) (type packet) (data packet) (sequenceNumber packet)
          (getName w1 receiver) 2] @ evs2 @
       [FailedAttempt (getName w2 this) (getName w2 receiver) e2,
        Sending (getName w2 this) (type packet) (data packet) (sequenceNumber packet)
          (getName w2 receiver) 3] @ evs3 @
       [FailedAttempt (getName w3 this) (getName w3 receiver) e3,
        FailedAfter (getName w3 this) (sequenceNumber packet) (getName w3 receiver) 3], w3)"
    by (simp add: send_with.simps [of _ "Suc 0"] MAX_RETRIES_def s1 r2 a2 n2)
  have a0: "send_with recv 0 packet this receiver w =
      (Raised ''Failed to send packet after maximum retries'',
       [Sending (getName w this) (type packet) (data packet) (sequenceNumber packet)
          (getName w receiver) 1] @ evs1 @
       [FailedAttempt (getName w1 this) (getName w1 receiver) e1,
        Sending (getName w1 this) (type packet) (data packet) (sequenceNumber packet)
          (getName w1 receiver) 2] @ evs2 @
       [FailedAttempt (getName w2 this) (getName w2 receiver) e2,
        Sending (getName w2 this) (type packet) (data packet) (sequenceNumber packet)
          (getName w2 receiver) 3] @ evs3 @
       [FailedAttempt (getName w3 this) (getName w3 receiver) e3,
        FailedAfter (getName w3 this) (sequenceNumber packet) (getName w3 receiver) 3], w3)"
    by (simp add: send_with.simps [of _ 0] MAX_RETRIES_def s0 r1 a1)
  from s0 s1 s2 r1 r2 r3 a0 have ?three_attempts
    by (intro exI [of _ e1] exI [of _ evs1] exI [of _ w1] exI [of _ e2] exI [of _ evs2]
          exI [of _ w2] exI [of _ e3] exI [of _ evs3] exI [of _ w3]) simp
  moreover have ?only_error
    by (intro allI impI) (rule send_with_raises_only_exhausted)
  ultimately show ?thesis by (rule conjI)
qed

text \<open>
  With a receive that prints nothing and always raises "Connection refused", node A
  sending the first packet of \<^verbatim>\<open>main\<close> to node B prints exactly the seven lines below.
\<close>

theorem send_exhausts_witness:
  "send_with unreachable 0 packet1 0 1 (demo (sconst 0.5)) =
     (Raised ''Failed to send packet after maximum retries'',
      [Sending ''Node A'' DATA ''Test'' 1 ''Node B'' 1,
       FailedAttempt ''Node A'' ''Node B'' ''Connection refused'',
       Sending ''Node A'' DATA ''Test'' 1 ''Node B'' 2,
       FailedAttempt ''Node A'' ''Node B'' ''Connection refused'',
       Sending ''Node A'' DATA ''Test'' 1 ''Node B'' 3,
       FailedAttempt ''Node A'' ''Node B'' ''Connection refused'',
       FailedAfter ''Node A'' 1 ''Node B'' 3],
      demo (sconst 0.5))"
  using send_exhausts_after_three_attempts [of unreachable packet1 1 0 "demo (sconst 0.5)"]
  by (simp add: unreachable_def packet1_def demo_def sample_def getName_def newNode_def Let_def
      fun_upd_idem)

text \<open>
  C7. If the receiver's \<open>receive\<close> returns on every call, \<open>send\<close> returns after one attempt:
  it prints one "is sending" line (attempt 1), draws one delay sample and calls \<open>receive\<close>
  once; its trace is that line followed by the lines of the one call, and its final state
  is the state that call left.
\<close>

theorem send_succeeds_on_first_attempt:
  assumes "\<forall>v. fst (recv packet receiver this v) = Returned"
  shows "\<exists>evs w'. recv packet receiver this (snd (sample this w)) = (Returned, evs, w')
          \<and> send_with recv 0 packet this receiver w =
              (Returned,
               Sending (getName w this) (type packet) (data packet) (sequenceNumber packet)
                 (getName w receiver) 1 # evs,
               w')"
proof -
  obtain d v0 where s0: "sample this w = (d, v0)" by (cases "sample this w")
  obtain r evs w' where r0: "recv packet receiver this v0 = (r, evs, w')"
    by (cases "recv packet receiver this v0")
  from assms r0 have r: "r = Returned" by (metis fst_conv)
  with s0 r0 show ?thesis
    by (simp add: send_with.simps [of _ 0] MAX_RETRIES_def)
qed

text \<open>
  Node A sends the first packet of \<^verbatim>\<open>main\<close> to node B, no sample falling below a threshold:
  one attempt, and the trace of the example run.
\<close>

theorem send_succeeds_witness:
  "fst (send_with receive 0 packet1 0 1 (demo (sconst 0.5))) = Returned
   \<and> fst (snd (send_with receive 0 packet1 0 1 (demo (sconst 0.5)))) =
       [Sending ''Node A'' DATA ''Test'' 1 ''Node B'' 1,
        Received ''Node B'' DATA ''Test'' 1,
        Sending ''Node B'' ACK ''ACK'' 1 ''Node A'' 1,
        Received ''Node A'' ACK ''ACK'' 1]
   \<and> buffer (nodes (snd (snd (send_with receive 0 packet1 0 1 (demo (sconst 0.5))))) 1) =
       [\<lparr>data = ''Test'', sequenceNumber = 1, type = DATA\<rparr>]
   \<and> buffer (nodes (snd (snd (send_with receive 0 packet1 0 1 (demo (sconst 0.5))))) 0) =
       [\<lparr>data = ''ACK'', sequenceNumber = 1, type = ACK\<rparr>]"
  using send_succeeds_on_first_attempt [of receive packet1 1 0 "demo (sconst 0.5)"]
  by (simp add: receive_returns, simp add: send.simps receive.simps packet1_def demo_def
      sample_def getName_def newNode_def Let_def fun_upd_idem receive_with_def
      send_with.simps [of _ 0] push_def MAX_RETRIES_def)

section \<open>Errors of the nested ACK send\<close>

text \<open>
  C2 as stated does not hold. Node B receives the first packet of \<^verbatim>\<open>main\<close> from node A while
  A's own receive is forced to fail: B's nested \<open>send\<close> of the ACK exhausts its three
  attempts, and its error leaves B's \<open>receive\<close>, in both source files.
\<close>

theorem receive_propagates_ack_failure:
  "fst (receive_with (send_with unreachable 0) packet1 1 0 (demo (sconst 0.5)))
     = Raised ''Failed to send packet after maximum retries''
   \<and> fst (receive_main_with (send_with unreachable 0) packet1 1 0 (demo (sconst 0.5)))
     = Raised ''Failed to send packet after maximum retries''"
  by (simp add: receive_with_def receive_main_with_def send_with_attempts
      unreachable_def packet1_def demo_def sample_def getName_def newNode_def Let_def
      push_def MAX_RETRIES_def)

text \<open>
  C2, amended. \<open>receive\<close> has no handler around the nested \<open>send\<close>: for a DATA packet that is
  not dropped, the outcome of \<open>receive\<close> is the outcome of the nested \<open>send\<close> of the ACK
  (called after the packet was enqueued), so an error of that \<open>send\<close> reaches the caller of
  \<open>receive\<close>; a dropped packet and an ACK make \<open>receive\<close> return. In the program itself the
  nested \<open>send\<close> cannot raise, and both \<open>receive\<close> functions always return.
\<close>

theorem receive_outcome_is_nested_send_outcome:
  "fst (receive_with snd_op packet this sender w) =
     (if fst (sample this w) < 0.1 then Returned
      else if type packet = DATA then
        fst (snd_op \<lparr>data = ''ACK'', sequenceNumber = sequenceNumber packet, type = ACK\<rparr>
               this sender
               (push this
                  (if fst (sample this (snd (sample this w))) < 0.05
                   then packet\<lparr>data := ''CORRUPTED''\<rparr> else packet)
                  (snd (sample this (snd (sample this w))))))
      else Returned)
   \<and> fst (receive_main_with snd_op packet this sender w) =
     (if type packet = DATA then
        fst (snd_op \<lparr>data = ''ACK'', sequenceNumber = sequenceNumber packet, type = ACK\<rparr>
               this sender (push this packet w))
      else Returned)
   \<and> fst (receive packet this sender w) = Returned
   \<and> fst (receive_main packet this sender w) = Returned"
  by (simp add: receive_with_def receive_main_with_def Let_def receive_returns
      receive_main_returns split: prod.splits)

text \<open>Node B receives the first packet of \<^verbatim>\<open>main\<close> from node A while A is unreachable, and while it is not.\<close>

theorem receive_outcome_witness:
  "fst (receive_with (send_with unreachable 0) packet1 1 0 (demo (sconst 0.5)))
     = fst (send_with unreachable 0 \<lparr>data = ''ACK'', sequenceNumber = 1, type = ACK\<rparr> 1 0
              (push 1 packet1 (demo (sconst 0.5))))
   \<and> fst (receive packet1 1 0 (demo (sconst 0.5))) = Returned"
  using receive_outcome_is_nested_send_outcome
          [of "send_with unreachable 0" packet1 1 0 "demo (sconst 0.5)"]
  by (simp add: packet1_def demo_def sample_def newNode_def Let_def fun_upd_idem push_def)

section \<open>The processing loop\<close>

lemma step_settled: "step raised s = Some s' \<Longrightarrow> settled nm s \<Longrightarrow> settled nm s'"
  by (auto simp: step_def settled_def split: pc.splits if_splits list.splits option.splits)

lemma exec_settled: "exec as s = Some s' \<Longrightarrow> settled nm s \<Longrightarrow> settled nm s'"
proof (induction as arbitrary: s)
  case Nil
  then show ?case by simp
next
  case (Cons a as)
  show ?case
  proof (cases a)
    case Thread
    with Cons.prems(1) obtain s1 where s1: "step None s = Some s1" and e: "exec as s1 = Some s'"
      by (auto split: option.splits)
    from step_settled [OF s1 Cons.prems(2)] Cons.IH [OF e] show ?thesis by simp
  next
    case (Raise x)
    with Cons.prems(1) obtain s1 where s1: "step (Some x) s = Some s1"
      and e: "exec as s1 = Some s'"
      by (auto split: option.splits)
    from step_settled [OF s1 Cons.prems(2)] Cons.IH [OF e] show ?thesis by simp
  next
    case CallStop
    with Cons.prems(1) have e: "exec as (s\<lparr>node := snd (stop (node s))\<rparr>) = Some s'" by simp
    have "settled nm (s\<lparr>node := snd (stop (node s))\<rparr>)"
      using Cons.prems(2) by (auto simp: settled_def stop_def)
    with Cons.IH [OF e] show ?thesis by simp
  next
    case (Enqueue p)
    with Cons.prems(1)
    have e: "exec as (s\<lparr>node := (node s)\<lparr>buffer := buffer (node s) @ [p]\<rparr>\<rparr>) = Some s'"
      by simp
    have "settled nm (s\<lparr>node := (node s)\<lparr>buffer := buffer (node s) @ [p]\<rparr>\<rparr>)"
      using Cons.prems(2) by (auto simp: settled_def)
    with Cons.IH [OF e] show ?thesis by simp
  qed
qed

text \<open>
  Once the loop has taken a packet it empties the queue, in order, one "is processing" line
  per packet: the inner loop tests the queue only, not the flag.
\<close>

lemma drain_is_fifo:
  assumes "pc s = Relock" and "buffer (node s) = ps"
  shows "exec (concat (replicate (length ps) [Thread, Thread])) s =
           Some (s\<lparr>node := (node s)\<lparr>buffer := []\<rparr>,
                   out := out s @ map (\<lambda>p. Processing (name (node s)) (data p) (sequenceNumber p)) ps\<rparr>)"
  using assms
proof (induction ps arbitrary: s)
  case Nil
  then show ?case by simp
next
  case (Cons p ps)
  let ?s' = "s\<lparr>node := (node s)\<lparr>buffer := ps\<rparr>,
               out := out s @ [Processing (name (node s)) (data p) (sequenceNumber p)]\<rparr>"
  have two: "exec ([Thread, Thread] @ as) s = exec as ?s'" for as
    using Cons.prems by (cases s) (simp add: step_def)
  have "exec (concat (replicate (length ps) [Thread, Thread])) ?s' =
          Some (?s'\<lparr>node := (node ?s')\<lparr>buffer := []\<rparr>,
                     out := out ?s' @ map (\<lambda>p. Processing (name (node ?s')) (data p) (sequenceNumber p)) ps\<rparr>)"
    using Cons.prems(1) by (intro Cons.IH) simp_all
  with two [of "concat (replicate (length ps) [Thread, Thread])"] Cons.prems
  show ?case by simp
qed




text \<open>
  C8 as stated does not hold. The loop of node B has taken the first packet of \<^verbatim>\<open>main\<close>, the
  second is queued, and \<^verbatim>\<open>stop\<close> is called; then processing raises "Disk full". The handler
  prints the error, the loop test finds \<^verbatim>\<open>running\<close> false, and the loop stops with the second
  packet unprocessed, although the message is not "Fatal error"; on the same schedule
  without the exception both packets are processed. And when the exception is raised
  before the \<^verbatim>\<open>pop\<close> (at the copy of the packet), the loop does not go on with the next packet:
  it takes the first packet again.
\<close>

theorem error_does_not_always_continue:
  "exec [Thread, Enqueue packet1, Enqueue packet2, Thread, CallStop,
         Raise ''Disk full'', Thread, Thread, Thread]
     (processPackets (newNode ''Node B'' 0)) =
   Some \<lparr>pc = STOPPED,
         node = \<lparr>name = ''Node B'', buffer = [packet2], gen = 0, running = False\<rparr>,
         out = [ProcessingError ''Node B'' ''Disk full'', Stopping ''Node B'']\<rparr>
   \<and> exec [Thread, Enqueue packet1, Enqueue packet2, Thread, CallStop,
         Thread, Thread, Thread, Thread, Thread, Thread]
     (processPackets (newNode ''Node B'' 0)) =
   Some \<lparr>pc = STOPPED,
         node = \<lparr>name = ''Node B'', buffer = [], gen = 0, running = False\<rparr>,
         out = [Processing ''Node B'' ''Test'' 1, Processing ''Node B'' ''Packet'' 2,
                Stopping ''Node B'']\<rparr>
   \<and> exec [Thread, Enqueue packet1, Enqueue packet2, Raise ''Disk full'', Thread, Thread, Thread]
     (processPackets (newNode ''Node B'' 0)) =
   Some \<lparr>pc = Process packet1,
         node = \<lparr>name = ''Node B'', buffer = [packet2], gen = 0, running = True\<rparr>,
         out = [ProcessingError ''Node B'' ''Disk full'']\<rparr>"
  by (simp add: step_def processPackets_def newNode_def stop_def packet1_def packet2_def)

text \<open>
  C8, amended. An exception raised inside the \<^verbatim>\<open>try\<close> block, at the wait, while a packet is
  processed or at the relock, is caught at once: the handler prints the "encountered an
  error" line with its message and the loop is back at its head. What follows depends on
  the message and on the flag:
  \<^item> "Fatal error": the handler sets \<^verbatim>\<open>running\<close> to false and the loop stops, printing "is
    stopping", with the queue left as it is;
  \<^item> another message and \<^verbatim>\<open>running\<close> false (\<^verbatim>\<open>stop\<close> was called meanwhile): the loop stops as
    well, the queue left as it is;
  \<^item> another message and \<^verbatim>\<open>running\<close> true: the loop takes the packet at the head of the queue,
    or waits when the queue is empty. That packet is the next one when the exception was
    raised after the \<^verbatim>\<open>pop\<close> (the packet being processed is lost), and the same packet again
    when it was raised before the \<^verbatim>\<open>pop\<close>.
\<close>

theorem processing_errors_are_caught:
  assumes "pc s = Wait \<or> pc s = Process packet \<or> pc s = Relock"
  shows "exec [Raise e, Thread] s =
           Some (s\<lparr>pc := LoopHead,
                   out := out s @ [ProcessingError (name (node s)) e],
                   node := (if e = ''Fatal error'' then (node s)\<lparr>running := False\<rparr>
                            else node s)\<rparr>)
       \<and> (e = ''Fatal error'' \<longrightarrow>
            exec [Raise e, Thread, Thread, Thread] s =
              Some (s\<lparr>pc := STOPPED,
                      out := out s @ [ProcessingError (name (node s)) e,
                                      Stopping (name (node s))],
                      node := (node s)\<lparr>running := False\<rparr>\<rparr>))
       \<and> (e \<noteq> ''Fatal error'' \<longrightarrow> \<not> running (node s) \<longrightarrow>
            exec [Raise e, Thread, Thread, Thread] s =
              Some (s\<lparr>pc := STOPPED,
                      out := out s @ [ProcessingError (name (node s)) e,
                                      Stopping (name (node s))]\<rparr>))
       \<and> (e \<noteq> ''Fatal error'' \<longrightarrow> running (node s) \<longrightarrow> buffer (node s) = nxt # rest \<longrightarrow>
            exec [Raise e, Thread, Thread, Thread] s =
              Some (s\<lparr>pc := Process nxt,
                      out := out s @ [ProcessingError (name (node s)) e],
                      node := (node s)\<lparr>buffer := rest\<rparr>\<rparr>))
       \<and> (e \<noteq> ''Fatal error'' \<longrightarrow> running (node s) \<longrightarrow> buffer (node s) = [] \<longrightarrow>
            exec [Raise e, Thread, Thread] s =
              Some (s\<lparr>pc := Wait, out := out s @ [ProcessingError (name (node s)) e]\<rparr>)
            \<and> exec [Raise e, Thread, Thread, Thread] s = None)"
  using assms by (auto simp: step_def)

text \<open>
  Node B with the second packet of \<^verbatim>\<open>main\<close> queued while the first is processed, and with both
  queued at the wait: "Disk full" after the \<^verbatim>\<open>pop\<close>, "Disk full" before the \<^verbatim>\<open>pop\<close>, "Fatal
  error", "Disk full" after \<^verbatim>\<open>stop\<close>, and "Disk full" on an empty queue.
\<close>

theorem processing_errors_witness:
  "exec [Raise ''Disk full'', Thread, Thread, Thread]
     \<lparr>pc = Process packet1, node = (newNode ''Node B'' 0)\<lparr>buffer := [packet2]\<rparr>, out = []\<rparr> =
   Some \<lparr>pc = Process packet2, node = newNode ''Node B'' 0,
         out = [ProcessingError ''Node B'' ''Disk full'']\<rparr>
   \<and> exec [Raise ''Disk full'', Thread, Thread, Thread]
     \<lparr>pc = Wait, node = (newNode ''Node B'' 0)\<lparr>buffer := [packet1, packet2]\<rparr>, out = []\<rparr> =
   Some \<lparr>pc = Process packet1, node = (newNode ''Node B'' 0)\<lparr>buffer := [packet2]\<rparr>,
         out = [ProcessingError ''Node B'' ''Disk full'']\<rparr>
   \<and> exec [Raise ''Fatal error'', Thread, Thread, Thread]
     \<lparr>pc = Process packet1, node = (newNode ''Node B'' 0)\<lparr>buffer := [packet2]\<rparr>, out = []\<rparr> =
   Some \<lparr>pc = STOPPED,
         node = \<lparr>name = ''Node B'', buffer = [packet2], gen = 0, running = False\<rparr>,
         out = [ProcessingError ''Node B'' ''Fatal error'', Stopping ''Node B'']\<rparr>
   \<and> exec [Raise ''Disk full'', Thread, Thread, Thread]
     \<lparr>pc = Process packet1,
      node = \<lparr>name = ''Node B'', buffer = [packet2], gen = 0, running = False\<rparr>, out = []\<rparr> =
   Some \<lparr>pc = STOPPED,
         node = \<lparr>name = ''Node B'', buffer = [packet2], gen = 0, running = False\<rparr>,
         out = [ProcessingError ''Node B'' ''Disk full'', Stopping ''Node B'']\<rparr>
   \<and> exec [Raise ''Disk full'', Thread, Thread, Thread]
     \<lparr>pc = Relock, node = newNode ''Node B'' 0, out = []\<rparr> = None"
  using processing_errors_are_caught
          [of "\<lparr>pc = Process packet1, node = (newNode ''Node B'' 0)\<lparr>buffer := [packet2]\<rparr>,
                out = []\<rparr>" packet1 "''Disk full''" packet2 "[]"]
        processing_errors_are_caught
          [of "\<lparr>pc = Wait, node = (newNode ''Node B'' 0)\<lparr>buffer := [packet1, packet2]\<rparr>,
                out = []\<rparr>" packet1 "''Disk full''" packet1 "[packet2]"]
        processing_errors_are_caught
          [of "\<lparr>pc = Process packet1, node = (newNode ''Node B'' 0)\<lparr>buffer := [packet2]\<rparr>,
                out = []\<rparr>" packet1 "''Fatal error''" packet2 "[]"]
        processing_errors_are_caught
          [of "\<lparr>pc = Process packet1,
                node = \<lparr>name = ''Node B'', buffer = [packet2], gen = 0, running = False\<rparr>,
                out = []\<rparr>" packet1 "''Disk full''" packet2 "[]"]
        processing_errors_are_caught
          [of "\<lparr>pc = Relock, node = newNode ''Node B'' 0, out = []\<rparr>" packet1 "''Disk full''"
              packet2 "[]"]
  by (simp add: newNode_def)

section \<open>\<^verbatim>\<open>Node::stop\<close> is idempotent\<close>

text \<open>
  C9. \<^verbatim>\<open>stop\<close> returns without an error and leaves \<^verbatim>\<open>running\<close> false, on any node, running or
  not; a second call changes nothing, and after any number of calls, at least one, the node
  is as after the first.
\<close>

theorem stop_is_idempotent:
  "fst (stop n) = Returned
   \<and> \<not> running (snd (stop n))
   \<and> stop (snd (stop n)) = stop n
   \<and> ((snd \<circ> stop) ^^ Suc k) n = snd (stop n)
   \<and> fst (stop (((snd \<circ> stop) ^^ k) n)) = Returned"
proof -
  have "((snd \<circ> stop) ^^ Suc k) n = snd (stop n)"
    by (induction k) (simp_all add: stop_def)
  then show ?thesis by (simp add: stop_def)
qed

theorem stop_is_idempotent_witness:
  "snd (stop (snd (stop (newNode ''Node B'' 0)))) =
     \<lparr>name = ''Node B'', buffer = [], gen = 0, running = False\<rparr>
   \<and> fst (stop (snd (stop (newNode ''Node B'' 0)))) = Returned"
  using stop_is_idempotent [of "newNode ''Node B'' 0" 0]
  by (simp add: stop_def newNode_def)

section \<open>Loss, corruption and the ACK\<close>

text \<open>
  C4. If the loss sample of \<open>receive\<close> is below 0.1, \<open>receive\<close> prints the "dropped" line and
  returns: nothing else is printed (no ACK is sent), and no node changes, so every queue
  is as before; only the generator has advanced. The \<open>send\<close> that made the call returns
  after this one attempt, with its "is sending" line and the "dropped" line as its trace.
\<close>

theorem loss_is_silent:
  assumes "sample caller u = (delay, w)" and "sample this w = (loss, w1)" and "loss < 0.1"
  shows "receive packet this sender w =
           (Returned, [Dropped (getName w this) (data packet) (sequenceNumber packet)], w1)
       \<and> nodes w1 = nodes w
       \<and> send packet caller this u =
           (Returned,
            [Sending (getName u caller) (type packet) (data packet) (sequenceNumber packet)
               (getName u this) 1,
             Dropped (getName u this) (data packet) (sequenceNumber packet)],
            w1)
       \<and> nodes w1 = nodes u"
proof -
  have n1: "nodes w1 = nodes w" using assms(2) nodes_sample [of this w] by simp
  have n0: "nodes w = nodes u" using assms(1) nodes_sample [of caller u] by simp
  have r: "receive packet this sender' w =
           (Returned, [Dropped (getName w this) (data packet) (sequenceNumber packet)], w1)"
    for sender'
    using assms(2,3) n1 by (simp add: receive.simps receive_with_def getName_def)
  have s: "send packet caller this u =
           (Returned,
            [Sending (getName u caller) (type packet) (data packet) (sequenceNumber packet)
               (getName u this) 1,
             Dropped (getName u this) (data packet) (sequenceNumber packet)],
            w1)"
    using assms(1) r [of caller] n0
    by (simp add: send.simps send_with.simps [of _ 0] MAX_RETRIES_def getName_def)
  from r [of sender] s n1 n0 show ?thesis by simp
qed

text \<open>Node A sends the first packet of \<^verbatim>\<open>main\<close>; the delay sample is 0.5 and B's loss sample 0.05.\<close>

theorem loss_is_silent_witness:
  "fst (send packet1 0 1 (demo (0.5 ## 0.05 ## sconst 0.5))) = Returned
   \<and> fst (snd (send packet1 0 1 (demo (0.5 ## 0.05 ## sconst 0.5)))) =
       [Sending ''Node A'' DATA ''Test'' 1 ''Node B'' 1, Dropped ''Node B'' ''Test'' 1]
   \<and> buffer (nodes (snd (snd (send packet1 0 1 (demo (0.5 ## 0.05 ## sconst 0.5))))) 1) = []"
  using loss_is_silent
          [of 0 "demo (0.5 ## 0.05 ## sconst 0.5)" "0.5"
              "snd (sample 0 (demo (0.5 ## 0.05 ## sconst 0.5)))" 1 "0.05"
              "snd (sample 1 (snd (sample 0 (demo (0.5 ## 0.05 ## sconst 0.5)))))" packet1 0]
  by (simp add: packet1_def demo_def sample_def getName_def newNode_def Let_def)

text \<open>
  C5. If the packet is not dropped and the corruption sample is below 0.05, the packet that
  \<open>receive\<close> enqueues has the data "CORRUPTED" and the sequence number and type of the
  original. It goes to the end of the receiver's queue (followed only by what the ACK's own
  delivery appends when a node sends to itself), the "received corrupted" and "received"
  lines are printed for it, and if it is a DATA packet the ACK is sent as for any other.
\<close>

theorem corruption_replaces_payload_only:
  assumes "sample this w = (loss, w1)" and "\<not> loss < 0.1"
    and "sample this w1 = (corruption, w2)" and "corruption < 0.05"
  shows "\<exists>evs w' rest.
       receive packet this sender w =
         (Returned,
          ReceivedCorrupted (getName w this) ''CORRUPTED'' (sequenceNumber packet) #
          Received (getName w this) (type packet) ''CORRUPTED'' (sequenceNumber packet) # evs,
          w')
     \<and> buffer (nodes w' this) =
         buffer (nodes w this) @
         \<lparr>data = ''CORRUPTED'', sequenceNumber = sequenceNumber packet, type = type packet\<rparr> # rest
     \<and> (sender \<noteq> this \<longrightarrow> rest = [])
     \<and> filter is_Sending evs =
         (if type packet = DATA
          then [Sending (getName w this) ACK ''ACK'' (sequenceNumber packet) (getName w sender) 1]
          else [])"
proof -
  define rp where "rp = packet\<lparr>data := ''CORRUPTED''\<rparr>"
  define ack where "ack = \<lparr>data = ''ACK'', sequenceNumber = sequenceNumber packet, type = ACK\<rparr>"
  have n1: "nodes w1 = nodes w" using assms(1) nodes_sample [of this w] by simp
  have n2: "nodes w2 = nodes w" using assms(3) nodes_sample [of this w1] n1 by simp
  have g2: "getName w2 = getName w" using n2 by (simp add: getName_def fun_eq_iff)
  have rp: "rp = \<lparr>data = ''CORRUPTED'', sequenceNumber = sequenceNumber packet,
                  type = type packet\<rparr>"
    unfolding rp_def by (rule corrupted_packet)
  show ?thesis
  proof (cases "type packet")
    case ACK
    have "receive packet this sender w =
         (Returned,
          [ReceivedCorrupted (getName w this) ''CORRUPTED'' (sequenceNumber packet),
           Received (getName w this) (type packet) ''CORRUPTED'' (sequenceNumber packet)],
          push this rp w2)"
      using assms ACK g2 by (simp add: receive.simps receive_with_def Let_def rp_def)
    moreover have "buffer (nodes (push this rp w2) this) = buffer (nodes w this) @ rp # []"
      using n2 by simp
    ultimately show ?thesis using ACK rp by auto
  next
    case DATA
    have ack: "type ack = ACK" by (simp add: ack_def)
    from send_ACK_effect [OF ack, of this sender "push this rp w2"]
    obtain evs v rest where snd: "send ack this sender (push this rp w2) =
          (Returned, Sending (getName w this) ACK ''ACK'' (sequenceNumber packet)
                       (getName w sender) 1 # evs, v)"
        and f: "filter is_Sending evs = []"
        and o: "\<forall>n. n \<noteq> sender \<longrightarrow> nodes v n = nodes (push this rp w2) n"
        and b: "buffer (nodes v sender) = buffer (nodes (push this rp w2) sender) @ rest"
      by (auto simp: g2 ack_def)
    have r: "receive packet this sender w =
         (Returned,
          ReceivedCorrupted (getName w this) ''CORRUPTED'' (sequenceNumber packet) #
          Received (getName w this) (type packet) ''CORRUPTED'' (sequenceNumber packet) #
          Sending (getName w this) ACK ''ACK'' (sequenceNumber packet) (getName w sender) 1 #
          evs, v)"
      using assms DATA g2 snd
      by (simp add: receive.simps receive_with_def Let_def rp_def ack_def)
    have buf: "buffer (nodes v this) =
        buffer (nodes w this) @ rp # (if sender = this then rest else [])"
    proof (cases "sender = this")
      case True
      with b n2 show ?thesis by simp
    next
      case False
      with o n2 show ?thesis by simp
    qed
    show ?thesis
      using r buf f DATA rp
      by (intro exI [of _ "Sending (getName w this) ACK ''ACK'' (sequenceNumber packet)
                (getName w sender) 1 # evs"] exI [of _ v]
            exI [of _ "if sender = this then rest else []"]) simp
  qed
qed

text \<open>Node B receives the first packet of \<^verbatim>\<open>main\<close> with loss sample 0.5 and corruption sample 0.01.\<close>

theorem corruption_witness:
  "fst (snd (receive packet1 1 0 (demo (0.5 ## 0.01 ## sconst 0.5)))) =
     [ReceivedCorrupted ''Node B'' ''CORRUPTED'' 1,
      Received ''Node B'' DATA ''CORRUPTED'' 1,
      Sending ''Node B'' ACK ''ACK'' 1 ''Node A'' 1,
      Received ''Node A'' ACK ''ACK'' 1]
   \<and> buffer (nodes (snd (snd (receive packet1 1 0 (demo (0.5 ## 0.01 ## sconst 0.5))))) 1) =
     [\<lparr>data = ''CORRUPTED'', sequenceNumber = 1, type = DATA\<rparr>]"
  using corruption_replaces_payload_only
          [of 1 "demo (0.5 ## 0.01 ## sconst 0.5)" "0.5"
              "snd (sample 1 (demo (0.5 ## 0.01 ## sconst 0.5)))" "0.01"
              "snd (sample 1 (snd (sample 1 (demo (0.5 ## 0.01 ## sconst 0.5)))))" packet1 0]
  by (simp add: receive.simps send.simps receive_with_def send_with_attempts packet1_def
      demo_def sample_def getName_def newNode_def Let_def push_def MAX_RETRIES_def)



section \<open>The two source files\<close>

text \<open>Pushing a packet and drawing a sample do not touch each other.\<close>

lemma gens_push [simp]: "gens (push this p w) = gens w"
  by (simp add: push_def)

lemma gen_push [simp]: "gen (nodes (push this p w) n) = gen (nodes w n)"
  by simp

lemma sample_push:
  "sample n (push this p w) = (fst (sample n w), push this p (snd (sample n w)))"
  by (simp add: sample_def push_def Let_def)

text \<open>The \<open>receive\<close> of \<^verbatim>\<open>main.cpp\<close>, and the \<open>receive\<close> and \<open>send\<close> of an ACK, written out.\<close>

lemma receive_main_unfolded:
  "receive_main packet this sender w =
     (if type packet = DATA then
        (Returned,
         [Received (getName w this) DATA (data packet) (sequenceNumber packet),
          Sending (getName w this) ACK ''ACK'' (sequenceNumber packet) (getName w sender) 1,
          Received (getName w sender) ACK ''ACK'' (sequenceNumber packet)],
         push sender \<lparr>data = ''ACK'', sequenceNumber = sequenceNumber packet, type = ACK\<rparr>
           (snd (sample this (push this packet w))))
      else
        (Returned,
         [Received (getName w this) (type packet) (data packet) (sequenceNumber packet)],
         push this packet w))"
  by (simp add: receive_main.simps receive_main_with_def Let_def send_main_ACK_effect)

lemma receive_ACK_unfolded:
  assumes "type packet = ACK"
  shows "receive packet this sender w =
     (if fst (sample this w) < 0.1 then
        (Returned, [Dropped (getName w this) (data packet) (sequenceNumber packet)],
         snd (sample this w))
      else if fst (sample this (snd (sample this w))) < 0.05 then
        (Returned,
         [ReceivedCorrupted (getName w this) ''CORRUPTED'' (sequenceNumber packet),
          Received (getName w this) ACK ''CORRUPTED'' (sequenceNumber packet)],
         push this (packet\<lparr>data := ''CORRUPTED''\<rparr>) (snd (sample this (snd (sample this w)))))
      else
        (Returned,
         [Received (getName w this) ACK (data packet) (sequenceNumber packet)],
         push this packet (snd (sample this (snd (sample this w))))))"
  using assms by (simp add: receive.simps receive_with_def Let_def case_prod_beta)

lemma send_ACK_unfolded:
  assumes "type packet = ACK"
  shows "send packet this receiver w =
     (Returned,
      Sending (getName w this) ACK (data packet) (sequenceNumber packet) (getName w receiver) 1
        # fst (snd (receive packet receiver this (snd (sample this w)))),
      snd (snd (receive packet receiver this (snd (sample this w)))))"
proof -
  obtain r evs v where r: "receive packet receiver this (snd (sample this w)) = (r, evs, v)"
    by (cases "receive packet receiver this (snd (sample this w))")
  with receive_returns [of packet receiver this "snd (sample this w)"] have "r = Returned"
    by simp
  with r assms show ?thesis
    by (simp add: send.simps send_with.simps [of _ 0] MAX_RETRIES_def case_prod_beta)
qed

text \<open>
  C10 as stated does not hold. With a generator that yields 0, the \<open>receive\<close> with injection
  drops the first packet of \<^verbatim>\<open>main\<close> (one "dropped" line, nothing enqueued), while the \<open>receive\<close>
  of \<^verbatim>\<open>main.cpp\<close>, which draws no sample, enqueues it and sends the ACK.
\<close>

theorem receive_variants_differ:
  "fst (snd (receive packet1 1 0 (demo (sconst 0)))) = [Dropped ''Node B'' ''Test'' 1]
   \<and> buffer (nodes (snd (snd (receive packet1 1 0 (demo (sconst 0))))) 1) = []
   \<and> fst (snd (receive_main packet1 1 0 (demo (sconst 0)))) =
       [Received ''Node B'' DATA ''Test'' 1,
        Sending ''Node B'' ACK ''ACK'' 1 ''Node A'' 1,
        Received ''Node A'' ACK ''ACK'' 1]
   \<and> buffer (nodes (snd (snd (receive_main packet1 1 0 (demo (sconst 0))))) 1) = [packet1]"
  by (simp add: receive.simps receive_main.simps send_main.simps receive_with_def
      receive_main_with_def send_with_attempts packet1_def demo_def sample_def getName_def
      newNode_def Let_def push_def MAX_RETRIES_def)

text \<open>
  C10, amended. The two \<open>receive\<close> functions always have the same outcome (both return).
  They print the same lines, and so send the same ACK, if and only if no loss or corruption
  sample falls below its threshold, neither those drawn by the \<open>receive\<close> with injection nor
  those drawn by the \<open>receive\<close> of the ACK it sends; on these runs they also leave the same
  nodes, so the same packets are enqueued. They do not consume the same randomness: the
  \<open>receive\<close> of \<^verbatim>\<open>main.cpp\<close> leaves the generators as after the one delay draw of the nested \<open>send\<close>
  (untouched, for an ACK), the \<open>receive\<close> with injection on such a run as after three draws
  by this node and two by the sender (two by this node, for an ACK).
\<close>

theorem receive_variants_agree_iff_no_injection:
  "fst (receive packet this sender w) = fst (receive_main packet this sender w)
   \<and> (fst (snd (receive packet this sender w)) = fst (snd (receive_main packet this sender w))
        \<longleftrightarrow> no_injection packet this sender w)
   \<and> (no_injection packet this sender w \<longrightarrow>
        nodes (snd (snd (receive packet this sender w)))
          = nodes (snd (snd (receive_main packet this sender w))))
   \<and> gens (snd (snd (receive_main packet this sender w)))
        = gens (draws (if type packet = DATA then [this] else []) w)
   \<and> (no_injection packet this sender w \<longrightarrow>
        gens (snd (snd (receive packet this sender w)))
          = gens (draws (if type packet = DATA then [this, this, this, sender, sender]
                         else [this, this]) w))"
  (is "?outcome \<and> ?events \<and> ?nodes \<and> ?gens_main \<and> ?gens")
proof -
  have ?outcome by (simp add: receive_returns receive_main_returns)
  moreover have ?gens_main
    by (simp add: receive_main_unfolded sample_push)
  moreover have "?events \<and> ?nodes \<and> ?gens"
  proof (cases "type packet")
    case ACK
    then show ?thesis
      by (simp add: receive_ACK_unfolded receive_main_unfolded no_injection_def Let_def
          case_prod_beta fun_eq_iff)
  next
    case DATA
    define ack where "ack = \<lparr>data = ''ACK'', sequenceNumber = sequenceNumber packet, type = ACK\<rparr>"
    have ack: "type ack = ACK" by (simp add: ack_def)
    show ?thesis
      using DATA
      by (simp add: receive.simps [of packet] receive_with_def send_ACK_unfolded
          receive_ACK_unfolded receive_main_unfolded no_injection_def Let_def
          case_prod_beta fun_eq_iff sample_push)
  qed
  ultimately show ?thesis by blast
qed

text \<open>
  Node B receives the first packet of \<^verbatim>\<open>main\<close> from node A, the shared generator yielding
  0.5, 0.6, 0.7, 0.8, 0.9 and then 0.95: the same lines in both files, and the next sample
  is 0.95 in one and 0.6 in the other. With a generator that yields 0 the lines differ.
\<close>

theorem receive_variants_agree_witness:
  "no_injection packet1 1 0 (demo (0.5 ## 0.6 ## 0.7 ## 0.8 ## 0.9 ## sconst 0.95))
   \<and> fst (snd (receive packet1 1 0 (demo (0.5 ## 0.6 ## 0.7 ## 0.8 ## 0.9 ## sconst 0.95)))) =
       [Received ''Node B'' DATA ''Test'' 1,
        Sending ''Node B'' ACK ''ACK'' 1 ''Node A'' 1,
        Received ''Node A'' ACK ''ACK'' 1]
   \<and> shd (gens (snd (snd (receive packet1 1 0
                 (demo (0.5 ## 0.6 ## 0.7 ## 0.8 ## 0.9 ## sconst 0.95))))) 0) = 0.95
   \<and> shd (gens (snd (snd (receive_main packet1 1 0
                 (demo (0.5 ## 0.6 ## 0.7 ## 0.8 ## 0.9 ## sconst 0.95))))) 0) = 0.6
   \<and> \<not> no_injection packet1 1 0 (demo (sconst 0))
   \<and> fst (snd (receive packet1 1 0 (demo (sconst 0))))
       \<noteq> fst (snd (receive_main packet1 1 0 (demo (sconst 0))))"
proof -
  let ?w = "demo (0.5 ## 0.6 ## 0.7 ## 0.8 ## 0.9 ## sconst 0.95)"
  have h: "no_injection packet1 1 0 ?w"
    by (simp add: no_injection_def packet1_def demo_def sample_def newNode_def Let_def push_def)
  have n: "\<not> no_injection packet1 1 0 (demo (sconst 0))"
    by (simp add: no_injection_def packet1_def demo_def sample_def newNode_def Let_def push_def)
  have m: "fst (snd (receive_main packet1 1 0 ?w)) =
       [Received ''Node B'' DATA ''Test'' 1,
        Sending ''Node B'' ACK ''ACK'' 1 ''Node A'' 1,
        Received ''Node A'' ACK ''ACK'' 1]"
    by (simp add: receive_main_unfolded packet1_def demo_def getName_def newNode_def)
  have d: "type packet1 = DATA" by (simp add: packet1_def)
  have g5: "shd (gens (draws [1, 1, 1, 0, 0] ?w) 0) = 0.95"
    by (simp add: demo_def sample_def newNode_def Let_def)
  have g1: "shd (gens (draws [1] ?w) 0) = 0.6"
    by (simp add: demo_def sample_def newNode_def Let_def)
  from receive_variants_agree_iff_no_injection [of packet1 1 0 ?w]
       receive_variants_agree_iff_no_injection [of packet1 1 0 "demo (sconst 0)"]
       h n m d g5 g1
  show ?thesis by simp
qed

end
